theory Spec2Isabelle
  imports Main "HOL-Library.Char_ord" "HOL-Library.List_Lexorder"
begin

section \<open>Python strings\<close>

text \<open>
  A Python \<open>str\<close> is modelled as a \<open>string\<close> whose characters are the code points
  0 to 255, so \<open>length\<close> is Python's \<open>len\<close>. Whitespace and letter case are those of
  Python in that range.
\<close>

definition LF :: char where
  "LF = CHR 0x0A"

definition CR :: char where
  "CR = CHR 0x0D"

definition isspace :: "char \<Rightarrow> bool" where
  \<comment> \<open>\<open>str.isspace\<close>: TAB to CR, the separators FS to US, space, NEL and NBSP.\<close>
  "isspace c = (let n = (of_char c :: nat)
                in (9 \<le> n \<and> n \<le> 13) \<or> (28 \<le> n \<and> n \<le> 32) \<or> n = 133 \<or> n = 160)"

definition strip :: "string \<Rightarrow> string" where
  \<comment> \<open>\<open>s.strip()\<close>\<close>
  "strip s = rev (dropWhile isspace (rev (dropWhile isspace s)))"

definition strip_chars :: "char \<Rightarrow> string \<Rightarrow> string" where
  \<comment> \<open>\<open>s.strip(c)\<close> for a single character\<close>
  "strip_chars c s = rev (dropWhile (\<lambda>x. x = c) (rev (dropWhile (\<lambda>x. x = c) s)))"

definition lower_char :: "char \<Rightarrow> char" where
  "lower_char c = (let n = (of_char c :: nat)
                   in if (65 \<le> n \<and> n \<le> 90) \<or> (192 \<le> n \<and> n \<le> 214) \<or> (216 \<le> n \<and> n \<le> 222)
                      then char_of (n + 32) else c)"

definition lower :: "string \<Rightarrow> string" where
  \<comment> \<open>\<open>s.lower()\<close>\<close>
  "lower s = map lower_char s"

fun split_on :: "char \<Rightarrow> string \<Rightarrow> string list" where
  \<comment> \<open>\<open>s.split(sep)\<close> for a one-character separator\<close>
  "split_on sep [] = [[]]"
| "split_on sep (c # cs) =
     (if c = sep then [] # split_on sep cs
      else (case split_on sep cs of
              p # ps \<Rightarrow> (c # p) # ps
            | [] \<Rightarrow> [[c]]))"

definition replace_char :: "char \<Rightarrow> string \<Rightarrow> string" where
  \<comment> \<open>\<open>s.replace(c, '')\<close>\<close>
  "replace_char c s = filter (\<lambda>x. x \<noteq> c) s"

definition endswith :: "string \<Rightarrow> string \<Rightarrow> bool" where
  "endswith s e = (length e \<le> length s \<and> drop (length s - length e) s = e)"

section \<open>Paths\<close>

definition path_join :: "string \<Rightarrow> string \<Rightarrow> string" where
  \<comment> \<open>\<open>os.path.join(a, b)\<close> on POSIX\<close>
  "path_join a b =
     (if b \<noteq> [] \<and> hd b = CHR ''/'' then b
      else if a = [] \<or> last a = CHR ''/'' then a @ b
      else a @ ''/'' @ b)"

definition basename :: "string \<Rightarrow> string" where
  \<comment> \<open>\<open>os.path.basename(p)\<close>: what follows the last slash\<close>
  "basename p = rev (takeWhile (\<lambda>c. c \<noteq> CHR ''/'') (rev p))"

definition splitext :: "string \<Rightarrow> string \<times> string" where
  \<comment> \<open>\<open>os.path.splitext(p)\<close> for a name without a slash: the extension starts at the
      last dot, unless only dots come before it\<close>
  "splitext p =
     (if CHR ''.'' \<in> set p then
        (let ext = CHR ''.'' # rev (takeWhile (\<lambda>c. c \<noteq> CHR ''.'') (rev p));
             base = rev (tl (dropWhile (\<lambda>c. c \<noteq> CHR ''.'') (rev p)))
         in if list_ex (\<lambda>c. c \<noteq> CHR ''.'') base then (base, ext) else (p, []))
      else (p, []))"

section \<open>The SQL LIKE operator of SQLite\<close>

definition sqlite3Tolower :: "char \<Rightarrow> char" where
  \<comment> \<open>only the ASCII capitals are folded\<close>
  "sqlite3Tolower c = (let n = (of_char c :: nat)
                       in if 65 \<le> n \<and> n \<le> 90 then char_of (n + 32) else c)"

definition nocase_eq :: "char \<Rightarrow> char \<Rightarrow> bool" where
  "nocase_eq a b = (sqlite3Tolower a = sqlite3Tolower b)"

fun patternCompare :: "string \<Rightarrow> string \<Rightarrow> bool" where
  \<comment> \<open>the matcher behind LIKE on two texts free of NUL, first argument the pattern:
      \<open>%\<close> matches any run of characters, \<open>_\<close> any one character, every other
      character itself up to ASCII case\<close>
  "patternCompare [] t = (t = [])"
| "patternCompare (p # ps) [] = (p = CHR ''%'' \<and> patternCompare ps [])"
| "patternCompare (p # ps) (c # cs) =
     (if p = CHR ''%'' then patternCompare ps (c # cs) \<or> patternCompare (p # ps) cs
      else (p = CHR ''_'' \<or> nocase_eq p c) \<and> patternCompare ps cs)"

definition NUL :: char where
  "NUL = CHR 0x00"

definition c_string :: "string \<Rightarrow> string" where
  \<comment> \<open>the matcher reads a text, pattern or column, up to its first NUL character\<close>
  "c_string t = takeWhile (\<lambda>c. c \<noteq> NUL) t"

definition utf8_bytes :: "string \<Rightarrow> nat" where
  \<comment> \<open>the length of a text in UTF-8, as the database holds it: two bytes for each of the
      code points 128 to 255, one for the others\<close>
  "utf8_bytes t = length t + length (filter (\<lambda>c. 128 \<le> (of_char c :: nat)) t)"

definition SQLITE_MAX_LIKE_PATTERN_LENGTH :: nat where
  "SQLITE_MAX_LIKE_PATTERN_LENGTH = 50000"

definition like :: "string \<Rightarrow> string option \<Rightarrow> bool option" where
  \<comment> \<open>\<open>column LIKE pattern\<close>: first argument the pattern, second the value of the column,
      None when it is NULL. The result None is the error "LIKE or GLOB pattern too
      complex", raised for a pattern of more than 50000 bytes whatever the column holds.
      On a NULL column the result is NULL, which no WHERE clause accepts.\<close>
  "like pat v =
     (if SQLITE_MAX_LIKE_PATTERN_LENGTH < utf8_bytes pat then None
      else (case v of
              None \<Rightarrow> Some False
            | Some t \<Rightarrow> Some (patternCompare (c_string pat) (c_string t))))"

definition sql_or :: "bool option \<Rightarrow> bool option \<Rightarrow> bool option" where
  \<comment> \<open>\<open>a OR b\<close> where a failing operand fails the whole\<close>
  "sql_or a b = (case a of None \<Rightarrow> None
                 | Some x \<Rightarrow> (case b of None \<Rightarrow> None | Some y \<Rightarrow> Some (x \<or> y)))"

section \<open>The entries table and the application state\<close>

datatype etype = Note | File

fun type_label :: "etype \<Rightarrow> string" where
  \<comment> \<open>\<open>type.capitalize()\<close> of the column values \<open>'note'\<close> and \<open>'file'\<close>\<close>
  "type_label Note = ''Note''"
| "type_label File = ''File''"

record entry =
  entry_id :: nat
  etype :: etype
  content :: string
  tags :: string
  filepath :: "string option"
  timestamp :: string
  description :: "string option"

text \<open>
  The state is the table (rows in rowid order), the AUTOINCREMENT counter, the files on
  disk by absolute path, and the paths on which the operating system refuses to write or
  unlink. \<open>home\<close> is what \<open>os.path.expanduser('~')\<close> returns. Statements on the open
  database are taken to succeed, but for a query whose LIKE pattern is too long; the
  widgets cleared and the list reloaded after a save are display only and are not part
  of the state.
\<close>

record app =
  home :: string
  pil_available :: bool
  entries :: "entry list"
  seq :: nat
  files :: "string \<Rightarrow> string option"
  denied :: "string \<Rightarrow> bool"

datatype dialog =
  ShowWarning string
  | ShowError string
  | ShowInfo string

definition APP_DIR :: "app \<Rightarrow> string" where
  "APP_DIR s = path_join (home s) ''BrainDumpApp''"

definition FILES_DIR :: "app \<Rightarrow> string" where
  "FILES_DIR s = path_join (APP_DIR s) ''files''"

definition next_rowid :: "app \<Rightarrow> nat" where
  \<comment> \<open>AUTOINCREMENT: one more than the largest rowid ever used\<close>
  "next_rowid s = Suc (fold max (map entry_id (entries s)) (seq s))"

definition sql_insert ::
  "etype \<Rightarrow> string \<Rightarrow> string \<Rightarrow> string option \<Rightarrow> string option \<Rightarrow> string \<Rightarrow> app \<Rightarrow> app" where
  \<comment> \<open>\<open>INSERT INTO entries ...\<close>; \<open>now\<close> is the CURRENT_TIMESTAMP default,
      \<open>'YYYY-MM-DD HH:MM:SS'\<close>\<close>
  "sql_insert ty c tg fp d now s =
     (let i = next_rowid s
      in s\<lparr>entries := entries s @
              [\<lparr>entry_id = i, etype = ty, content = c, tags = tg, filepath = fp,
                timestamp = now, description = d\<rparr>],
            seq := i\<rparr>)"

definition fetch_entry :: "nat \<Rightarrow> app \<Rightarrow> entry option" where
  \<comment> \<open>\<open>SELECT ... FROM entries WHERE id = ?\<close> followed by \<open>fetchone()\<close>\<close>
  "fetch_entry i s = find (\<lambda>e. entry_id e = i) (entries s)"

definition sql_delete :: "nat \<Rightarrow> app \<Rightarrow> app" where
  \<comment> \<open>\<open>DELETE FROM entries WHERE id = ?\<close>\<close>
  "sql_delete i s = s\<lparr>entries := filter (\<lambda>e. entry_id e \<noteq> i) (entries s)\<rparr>"

section \<open>Capturing notes and files\<close>

definition add_note :: "string \<Rightarrow> string \<Rightarrow> string \<Rightarrow> app \<Rightarrow> dialog list \<times> app" where
  \<comment> \<open>\<open>note_text\<close> and \<open>tag_entry\<close> are the texts of the two widgets\<close>
  "add_note note_text tag_entry now s =
     (let content = strip note_text;
          tags = lower (strip tag_entry)
      in if content = [] then ([ShowWarning ''Empty Note''], s)
         else ([], sql_insert Note content tags None None now s))"

definition copy2 :: "string \<Rightarrow> string \<Rightarrow> app \<Rightarrow> app option" where
  \<comment> \<open>\<open>shutil.copy2(src, dst)\<close>; None when it raises\<close>
  "copy2 src dst s =
     (case files s src of
        None \<Rightarrow> None
      | Some bytes \<Rightarrow>
          if src = dst \<or> denied s dst then None
          else Some (s\<lparr>files := (files s)(dst \<mapsto> bytes)\<rparr>))"

definition copy_file_to_storage ::
  "string \<Rightarrow> string \<Rightarrow> string \<Rightarrow> app \<Rightarrow> dialog + (string \<times> app)" where
  \<comment> \<open>\<open>stamp\<close> is \<open>datetime.now().strftime("%Y%m%d%H%M%S")\<close> at the call; the error
      dialog stands for the None the source returns after showing it\<close>
  "copy_file_to_storage path filename stamp s =
     (let new_filepath = path_join (FILES_DIR s) filename;
          new_filepath =
            (if files s new_filepath \<noteq> None then
               (let (base, ext) = splitext filename;
                    new_filename = base @ ''_'' @ stamp @ ext
                in path_join (FILES_DIR s) new_filename)
             else new_filepath)
      in case copy2 path new_filepath s of
           None \<Rightarrow> Inl (ShowError ''File Error'')
         | Some s' \<Rightarrow> Inr (new_filepath, s'))"

definition save_file_reference ::
  "string \<Rightarrow> string \<Rightarrow> string \<Rightarrow> string \<Rightarrow> string \<Rightarrow> app \<Rightarrow> dialog list \<times> app" where
  \<comment> \<open>the body shared by \<open>add_file\<close> and the path branch of \<open>paste_from_clipboard\<close>\<close>
  "save_file_reference path tag_entry note_text stamp now s =
     (let tags = lower (strip tag_entry);
          description = strip note_text;
          filename = basename path
      in case copy_file_to_storage path filename stamp s of
           Inl d \<Rightarrow> ([d], s)
         | Inr (new_filepath, s') \<Rightarrow>
             ([], sql_insert File filename tags (Some new_filepath) (Some description) now s'))"

definition add_file ::
  "string \<Rightarrow> string \<Rightarrow> string \<Rightarrow> string \<Rightarrow> string \<Rightarrow> app \<Rightarrow> dialog list \<times> app" where
  \<comment> \<open>\<open>path\<close> is what the file dialog returns, empty when it is cancelled\<close>
  "add_file path tag_entry note_text stamp now s =
     (if path = [] then ([], s)
      else save_file_reference path tag_entry note_text stamp now s)"

definition save_pasted_image_data ::
  "string \<Rightarrow> string \<Rightarrow> string \<Rightarrow> string \<Rightarrow> string \<Rightarrow> app \<Rightarrow> dialog list \<times> app" where
  \<comment> \<open>\<open>im\<close> is the PNG encoding of the clipboard image\<close>
  "save_pasted_image_data im tag_entry note_text stamp now s =
     (let tags = lower (strip tag_entry);
          description = strip note_text;
          filename = ''paste_'' @ stamp @ ''.png'';
          new_filepath = path_join (FILES_DIR s) filename
      in if denied s new_filepath then ([ShowError ''File Error''], s)
         else ([], sql_insert File filename tags (Some new_filepath) (Some description) now
                     (s\<lparr>files := (files s)(new_filepath \<mapsto> im)\<rparr>)))"

datatype clipboard = ClipImage string | ClipText string | ClipEmpty

definition valid_image_extensions :: "string list" where
  "valid_image_extensions = [''.png'', ''.jpg'', ''.jpeg'', ''.bmp'', ''.gif'']"

definition paste_from_clipboard ::
  "clipboard \<Rightarrow> string \<Rightarrow> string \<Rightarrow> string \<Rightarrow> string \<Rightarrow> app \<Rightarrow> dialog list \<times> app" where
  \<comment> \<open>plain text goes into the note widget and is not stored\<close>
  "paste_from_clipboard clip tag_entry note_text stamp now s =
     (if \<not> pil_available s then ([ShowError ''Feature Disabled''], s)
      else case clip of
        ClipImage im \<Rightarrow> save_pasted_image_data im tag_entry note_text stamp now s
      | ClipEmpty \<Rightarrow> ([ShowInfo ''Clipboard Empty''], s)
      | ClipText clipboard_text \<Rightarrow>
          if clipboard_text = [] then ([ShowInfo ''Clipboard Empty''], s)
          else
            (let cleaned_path = strip_chars (CHR 0x22) (strip clipboard_text)
             in if files s cleaned_path \<noteq> None
                   \<and> list_ex (endswith (lower cleaned_path)) valid_image_extensions
                then save_file_reference cleaned_path tag_entry note_text stamp now s
                else ([], s)))"

section \<open>Selecting and deleting\<close>

definition on_entry_select :: "nat \<Rightarrow> app \<Rightarrow> dialog list \<times> entry option" where
  \<comment> \<open>the dialogs shown and the row handed to \<open>display_entry\<close>, if any\<close>
  "on_entry_select i s =
     (case fetch_entry i s of
        Some e \<Rightarrow> ([], Some e)
      | None \<Rightarrow> ([], None))"

definition os_remove :: "string \<Rightarrow> app \<Rightarrow> app option" where
  \<comment> \<open>\<open>os.remove(p)\<close>; None when it raises OSError\<close>
  "os_remove p s =
     (if files s p = None \<or> denied s p then None
      else Some (s\<lparr>files := (files s)(p := None)\<rparr>))"

definition delete_entry :: "nat \<Rightarrow> bool \<Rightarrow> app \<Rightarrow> dialog list \<times> app" where
  \<comment> \<open>\<open>confirm\<close> is the answer to the yes/no dialog\<close>
  "delete_entry i confirm s =
     (if \<not> confirm then ([], s)
      else
        (let (ds, s1) =
               (case fetch_entry i s of
                  None \<Rightarrow> ([], s)
                | Some e \<Rightarrow>
                    (case filepath e of
                       None \<Rightarrow> ([], s)
                     | Some p \<Rightarrow>
                         if etype e = File \<and> p \<noteq> [] \<and> files s p \<noteq> None then
                           (case os_remove p s of
                              None \<Rightarrow> ([ShowError ''File Error''], s)
                            | Some s' \<Rightarrow> ([], s'))
                         else ([], s)))
         in (ds, sql_delete i s1)))"

section \<open>Listing\<close>

fun insert_desc :: "entry \<Rightarrow> entry list \<Rightarrow> entry list" where
  "insert_desc r [] = [r]"
| "insert_desc r (x # xs) =
     (if timestamp x \<le> timestamp r then r # x # xs else x # insert_desc r xs)"

definition order_by_timestamp_desc :: "entry list \<Rightarrow> entry list" where
  \<comment> \<open>\<open>ORDER BY timestamp DESC\<close>: the column is text and compares character by
      character; the query names no second key, and SQLite's sorter leaves rows with equal
      keys in the order of the table scan\<close>
  "order_by_timestamp_desc rows = foldr insert_desc rows []"

definition like_pattern :: "string \<Rightarrow> string" where
  \<comment> \<open>the parameter \<open>f"%{term}%"\<close>\<close>
  "like_pattern term = ''%'' @ term @ ''%''"

definition where_clauses :: "string \<Rightarrow> string \<Rightarrow> (entry \<Rightarrow> bool option) list" where
  "where_clauses search_term tag_filter_term =
     (if search_term \<noteq> [] then
        [\<lambda>e. sql_or (like (like_pattern search_term) (Some (content e)))
                     (like (like_pattern search_term) (description e))]
      else [])
     @ (if tag_filter_term \<noteq> [] then
          [\<lambda>e. like (like_pattern tag_filter_term) (Some (tags e))]
        else [])"

fun sql_and :: "(entry \<Rightarrow> bool option) list \<Rightarrow> entry \<Rightarrow> bool option" where
  \<comment> \<open>the clauses joined by AND, tested on a row in order until one is false or fails\<close>
  "sql_and [] e = Some True"
| "sql_and (c # cs) e =
     (case c e of
        None \<Rightarrow> None
      | Some b \<Rightarrow> if b then sql_and cs e else Some False)"

fun sql_where :: "(entry \<Rightarrow> bool option) list \<Rightarrow> entry list \<Rightarrow> entry list option" where
  \<comment> \<open>the table scan: the rows that pass the clauses, or None when a test fails on some
      row, which ends the query with an error\<close>
  "sql_where cs [] = Some []"
| "sql_where cs (e # es) =
     (case sql_and cs e of
        None \<Rightarrow> None
      | Some b \<Rightarrow>
          (case sql_where cs es of
             None \<Rightarrow> None
           | Some rows \<Rightarrow> Some (if b then e # rows else rows)))"

definition fetchall :: "string \<Rightarrow> string \<Rightarrow> app \<Rightarrow> entry list option" where
  \<comment> \<open>\<open>cursor.execute(query, params)\<close> and \<open>fetchall()\<close>, None when they raise
      \<open>sqlite3.Error\<close>; the arguments are the texts of the search and the tag filter
      widgets\<close>
  "fetchall search_entry tag_filter_entry s =
     (let search_term = strip search_entry;
          tag_filter_term = lower (strip tag_filter_entry);
          cs = where_clauses search_term tag_filter_term
      in map_option order_by_timestamp_desc (sql_where cs (entries s)))"

definition select_entries :: "string \<Rightarrow> string \<Rightarrow> app \<Rightarrow> entry list" where
  \<comment> \<open>the rows the loop of \<open>load_entries\<close> runs over: those fetched, none when the
      query raised\<close>
  "select_entries search_entry tag_filter_entry s =
     (case fetchall search_entry tag_filter_entry s of
        None \<Rightarrow> []
      | Some rows \<Rightarrow> rows)"


definition preview :: "entry \<Rightarrow> string" where
  "preview e =
     (case etype e of
        Note \<Rightarrow>
          (let p = take 50 (replace_char CR (hd (split_on LF (content e))))
           in if 50 < length (content e) \<or> LF \<in> set (content e) then p @ ''...'' else p)
      | File \<Rightarrow> content e)"

definition ts_date :: "entry \<Rightarrow> string" where
  \<comment> \<open>\<open>'YYYY-MM-DD HH:MM:SS'\<close> reformatted as \<open>'%Y-%m-%d %H:%M'\<close>\<close>
  "ts_date e = take 16 (timestamp e)"

definition load_entries :: "string \<Rightarrow> string \<Rightarrow> app \<Rightarrow> (nat \<times> string \<times> string \<times> string) list" where
  \<comment> \<open>the items of the Treeview after the call: iid and the three column values\<close>
  "load_entries search_entry tag_filter_entry s =
     map (\<lambda>e. (entry_id e, ts_date e, type_label (etype e), preview e))
         (select_entries search_entry tag_filter_entry s)"

section \<open>The operations as one transition function\<close>

datatype action =
  AddNote string string string
  | AddFile string string string string string
  | Paste clipboard string string string string
  | Delete nat bool

fun step :: "action \<Rightarrow> app \<Rightarrow> dialog list \<times> app" where
  "step (AddNote note_text tag_entry now) s = add_note note_text tag_entry now s"
| "step (AddFile path tag_entry note_text stamp now) s =
     add_file path tag_entry note_text stamp now s"
| "step (Paste clip tag_entry note_text stamp now) s =
     paste_from_clipboard clip tag_entry note_text stamp now s"
| "step (Delete i confirm) s = delete_entry i confirm s"

fun run :: "action list \<Rightarrow> app \<Rightarrow> app" where
  "run [] s = s"
| "run (a # as) s = run as (snd (step a s))"

definition fresh :: app where
  \<comment> \<open>a first start: empty table, nothing on disk\<close>
  "fresh = \<lparr>home = ''/home/u'', pil_available = True, entries = [], seq = 0,
            files = (\<lambda>p. None), denied = (\<lambda>p. False)\<rparr>"

definition with_pictures :: app where
  \<comment> \<open>a first start with three pictures in the user's folders\<close>
  "with_pictures =
     fresh\<lparr>files := (\<lambda>p. if p = ''/home/u/x/a.png'' then Some ''XX''
                         else if p = ''/home/u/y/a_20240101100000.png'' then Some ''YY''
                         else if p = ''/home/u/z/a.png'' then Some ''ZZ''
                         else None)\<rparr>"

definition one_file :: app where
  "one_file =
     run [AddFile ''/home/u/x/a.png'' ''Work'' ''my picture'' ''20240101100000''
            ''2024-01-01 09:00:00''] with_pictures"

definition two_attachments :: app where
  \<comment> \<open>two pictures added on different days\<close>
  "two_attachments =
     run [AddFile ''/home/u/x/a.png'' [] [] ''20231231235959'' ''2023-12-31 22:59:59'',
          AddFile ''/home/u/y/a_20240101100000.png'' [] [] ''20240101080000''
            ''2024-01-01 07:00:00''] with_pictures"


definition locked :: "app \<Rightarrow> app" where
  \<comment> \<open>the same state once the operating system refuses every write and unlink\<close>
  "locked s = s\<lparr>denied := (\<lambda>p. True)\<rparr>"

section \<open>The properties of the specification\<close>

definition reports_error :: "dialog list \<times> 'a \<Rightarrow> bool" where
  \<comment> \<open>the operation showed a dialog\<close>
  "reports_error r = (fst r \<noteq> [])"

definition newest_first :: "entry list \<Rightarrow> bool" where
  \<comment> \<open>timestamp descending, equal timestamps by id descending\<close>
  "newest_first rows =
     sorted_wrt (\<lambda>a b. timestamp b < timestamp a
                        \<or> (timestamp a = timestamp b \<and> entry_id b < entry_id a)) rows"

definition timestamp_desc :: "entry list \<Rightarrow> bool" where
  "timestamp_desc rows = sorted_wrt (\<lambda>a b. timestamp b \<le> timestamp a) rows"

definition first_line :: "string \<Rightarrow> string" where
  "first_line s = takeWhile (\<lambda>c. c \<noteq> LF) s"

definition ellipsis :: "string \<Rightarrow> string" where
  \<comment> \<open>appended when the content exceeds 50 characters or has more than one line\<close>
  "ellipsis s = (if 50 < length s \<or> LF \<in> set s then ''...'' else [])"

definition spec_preview :: "string \<Rightarrow> string" where
  \<comment> \<open>the preview of a note in the words of the specification\<close>
  "spec_preview s = take 50 (first_line s) @ ellipsis s"

definition preview_without_cr :: "string \<Rightarrow> string" where
  \<comment> \<open>the same with the carriage returns of the first line left out\<close>
  "preview_without_cr s = take 50 (filter (\<lambda>c. c \<noteq> CR) (first_line s)) @ ellipsis s"










definition in_files_dir :: "app \<Rightarrow> string \<Rightarrow> bool" where
  \<comment> \<open>the path is the attachment directory, a slash and what follows\<close>
  "in_files_dir s p = (let d = FILES_DIR s @ ''/'' in take (length d) p = d)"

definition filepath_ok :: "app \<Rightarrow> entry \<Rightarrow> bool" where
  "filepath_ok s e =
     (case etype e of
        Note \<Rightarrow> filepath e = None
      | File \<Rightarrow> (case filepath e of None \<Rightarrow> False | Some p \<Rightarrow> in_files_dir s p))"

definition filepaths_ok :: "app \<Rightarrow> bool" where
  "filepaths_ok s = list_all (filepath_ok s) (entries s)"

section \<open>Auxiliary facts\<close>

lemma split_on_nonempty: "split_on sep s \<noteq> []"
  by (induction s) (auto split: list.splits)

lemma hd_split_on: "hd (split_on sep s) = takeWhile (\<lambda>c. c \<noteq> sep) s"
  by (induction s) (auto split: list.splits simp: split_on_nonempty)

lemma fold_max_ge: "a \<le> fold max xs (a::nat)"
  by (induction xs arbitrary: a) (auto intro: order_trans[OF max.cobounded2])

lemma fold_max_mem: "x \<in> set xs \<Longrightarrow> x \<le> fold max xs (a::nat)"
  by (induction xs arbitrary: a) (auto intro: order_trans[OF max.cobounded1 fold_max_ge])

lemma next_rowid_fresh: "e \<in> set (entries s) \<Longrightarrow> entry_id e < next_rowid s"
  unfolding next_rowid_def
  using fold_max_mem[of "entry_id e" "map entry_id (entries s)" "seq s"] by simp

lemma set_insert_desc: "set (insert_desc r xs) = insert r (set xs)"
  by (induction xs) auto


lemma sorted_insert_desc:
  "sorted_wrt (\<lambda>a b. timestamp b \<le> timestamp a) xs \<Longrightarrow>
   sorted_wrt (\<lambda>a b. timestamp b \<le> timestamp a) (insert_desc r xs)"
  by (induction xs) (auto simp: set_insert_desc)

lemma sorted_order_by:
  "sorted_wrt (\<lambda>a b. timestamp b \<le> timestamp a) (order_by_timestamp_desc rows)"
  unfolding order_by_timestamp_desc_def by (induction rows) (auto simp: sorted_insert_desc)

section \<open>Listing order\<close>

text \<open>
  C1, as amended. Whatever the table and the filters, the rows of the listing come with
  their timestamps in descending order, and the items of the list widget follow the rows
  one for one. The query has no second sort key: nothing is promised about rows whose
  timestamps are equal.
\<close>

theorem list_entries_timestamp_desc:
  "timestamp_desc (select_entries search_entry tag_filter_entry s)
   \<and> map fst (load_entries search_entry tag_filter_entry s)
       = map entry_id (select_entries search_entry tag_filter_entry s)"
  by (simp add: timestamp_desc_def select_entries_def fetchall_def load_entries_def Let_def
      sorted_order_by comp_def split: option.splits)

text \<open>
  C1 as the specification states it fails: two notes saved within the same second are
  listed oldest first, ids 1 then 2, not by id descending.
\<close>

theorem list_entries_ties_counterexample:
  "map entry_id (select_entries [] []
      (run [AddNote ''a'' [] ''2024-01-01 10:00:00'',
            AddNote ''b'' [] ''2024-01-01 10:00:00''] fresh)) = [1, 2]
   \<and> \<not> newest_first (select_entries [] []
      (run [AddNote ''a'' [] ''2024-01-01 10:00:00'',
            AddNote ''b'' [] ''2024-01-01 10:00:00''] fresh))"
  by code_simp

section \<open>Selecting an entry\<close>

text \<open>
  C3, as amended. Selecting an id that has no row shows nothing and reports nothing:
  no dialog, no row displayed.
\<close>

theorem on_entry_select_missing:
  "i \<notin> set (map entry_id (entries s)) \<Longrightarrow> on_entry_select i s = ([], None)"
proof -
  assume "i \<notin> set (map entry_id (entries s))"
  then have "find (\<lambda>e. entry_id e = i) (entries s) = None"
    by (auto simp: find_None_iff)
  then show ?thesis by (simp add: on_entry_select_def fetch_entry_def)
qed

theorem on_entry_select_missing_witness:
  "2 \<notin> set (map entry_id (entries (run [AddNote ''a'' [] ''2024-01-01 10:00:00''] fresh)))
   \<and> on_entry_select 2 (run [AddNote ''a'' [] ''2024-01-01 10:00:00''] fresh) = ([], None)"
proof -
  have h: "2 \<notin> set (map entry_id (entries (run [AddNote ''a'' [] ''2024-01-01 10:00:00''] fresh)))"
    by code_simp
  from h on_entry_select_missing[OF h] show ?thesis by simp
qed

text \<open>
  C3 as the specification states it fails: on the empty table, selecting id 7 finds no
  row and no error is reported.
\<close>

theorem on_entry_select_counterexample:
  "fetch_entry 7 fresh = None \<and> \<not> reports_error (on_entry_select 7 fresh)"
  by code_simp

section \<open>Previews\<close>

text \<open>
  C4, as amended. The preview of a note is the first line of its content with the
  carriage returns removed, cut to 50 characters, followed by three dots exactly when the
  content is longer than 50 characters or contains a line feed; the preview of a file is
  its stored base filename.
\<close>

theorem load_entries_preview:
  "load_entries search_entry tag_filter_entry s =
     map (\<lambda>e. (entry_id e, ts_date e, type_label (etype e),
                (case etype e of
                   Note \<Rightarrow> preview_without_cr (content e)
                 | File \<Rightarrow> content e)))
         (select_entries search_entry tag_filter_entry s)"
proof -
  have "preview e = (case etype e of Note \<Rightarrow> preview_without_cr (content e)
                                   | File \<Rightarrow> content e)" for e
    by (simp add: preview_def preview_without_cr_def first_line_def ellipsis_def
        replace_char_def hd_split_on Let_def split: etype.splits)
  then show ?thesis by (simp add: load_entries_def)
qed

text \<open>
  C4 as the specification states it fails: the note \<open>a\rb\<close> is one line of three
  characters, and its preview is \<open>ab\<close>.
\<close>

theorem preview_counterexample:
  "map content (entries (run [AddNote [CHR ''a'', CR, CHR ''b''] [] ''2024-01-01 10:00:00''] fresh))
     = [[CHR ''a'', CR, CHR ''b'']]
   \<and> map (snd \<circ> snd \<circ> snd)
        (load_entries [] [] (run [AddNote [CHR ''a'', CR, CHR ''b''] [] ''2024-01-01 10:00:00''] fresh))
     = [''ab'']
   \<and> spec_preview [CHR ''a'', CR, CHR ''b''] = [CHR ''a'', CR, CHR ''b'']"
  by code_simp


section \<open>Saving a note\<close>

lemma strip_empty_iff: "strip c = [] \<longleftrightarrow> list_all isspace c"
proof
  assume "strip c = []"
  then have a: "\<forall>x \<in> set (dropWhile isspace c). isspace x"
    by (simp add: strip_def dropWhile_eq_Nil_conv)
  have "dropWhile isspace c = []"
  proof (rule ccontr)
    assume n: "dropWhile isspace c \<noteq> []"
    then have "\<not> isspace (hd (dropWhile isspace c))" by (rule hd_dropWhile)
    moreover have "hd (dropWhile isspace c) \<in> set (dropWhile isspace c)" using n by simp
    ultimately show False using a by blast
  qed
  then show "list_all isspace c" by (simp add: dropWhile_eq_Nil_conv list_all_iff)
next
  assume "list_all isspace c"
  then show "strip c = []"
    by (auto simp: strip_def list_all_iff dest: set_dropWhileD)
qed

lemma find_append_skip: "\<forall>x \<in> set xs. \<not> P x \<Longrightarrow> find P (xs @ ys) = find P ys"
  by (induction xs) auto

lemma entries_sql_insert:
  "entries (sql_insert ty c tg fp d now s) =
     entries s @ [\<lparr>entry_id = next_rowid s, etype = ty, content = c, tags = tg, filepath = fp,
                   timestamp = now, description = d\<rparr>]"
  by (simp add: sql_insert_def Let_def)

lemma fetch_after_insert:
  "fetch_entry (next_rowid s) (sql_insert ty c tg fp d now s) =
     Some \<lparr>entry_id = next_rowid s, etype = ty, content = c, tags = tg, filepath = fp,
           timestamp = now, description = d\<rparr>"
proof -
  have "\<forall>x \<in> set (entries s). \<not> entry_id x = next_rowid s"
    using next_rowid_fresh by fastforce
  then show ?thesis
    by (simp add: fetch_entry_def entries_sql_insert find_append_skip)
qed

text \<open>
  C5, as amended. When the note text is empty or only whitespace, saving shows the
  "Empty Note" warning and leaves the state, hence the number of rows, as it was.
  Otherwise no dialog is shown and exactly one row is appended: a note with the trimmed
  text as content, no filepath, no description, and the tags trimmed and lowercased.
\<close>

theorem add_note_validation:
  "(list_all isspace note_text \<longrightarrow>
      add_note note_text tag_entry now s = ([ShowWarning ''Empty Note''], s))
   \<and> (\<not> list_all isspace note_text \<longrightarrow>
      fst (add_note note_text tag_entry now s) = []
      \<and> entries (snd (add_note note_text tag_entry now s)) =
          entries s @ [\<lparr>entry_id = next_rowid s, etype = Note, content = strip note_text,
                        tags = lower (strip tag_entry), filepath = None, timestamp = now,
                        description = None\<rparr>])"
  by (simp add: add_note_def Let_def strip_empty_iff entries_sql_insert)

theorem add_note_validation_witness:
  "list_all isspace [CHR '' '', LF]
   \<and> add_note [CHR '' '', LF] ''Work'' ''2024-01-01 10:00:00'' fresh
       = ([ShowWarning ''Empty Note''], fresh)
   \<and> \<not> list_all isspace ''buy milk''
   \<and> entries (snd (add_note ''buy milk'' ''Work'' ''2024-01-01 10:00:00'' fresh))
       = [\<lparr>entry_id = 1, etype = Note, content = ''buy milk'', tags = ''work'',
            filepath = None, timestamp = ''2024-01-01 10:00:00'', description = None\<rparr>]"
proof -
  have h1: "list_all isspace [CHR '' '', LF]" by code_simp
  have h2: "\<not> list_all isspace ''buy milk''" by code_simp
  have e: "entries fresh @ [\<lparr>entry_id = next_rowid fresh, etype = Note,
             content = strip ''buy milk'', tags = lower (strip ''Work''), filepath = None,
             timestamp = ''2024-01-01 10:00:00'', description = None\<rparr>]
           = [\<lparr>entry_id = 1, etype = Note, content = ''buy milk'', tags = ''work'',
               filepath = None, timestamp = ''2024-01-01 10:00:00'', description = None\<rparr>]"
    by code_simp
  from add_note_validation[of "[CHR '' '', LF]" "''Work''" "''2024-01-01 10:00:00''" fresh]
       add_note_validation[of "''buy milk''" "''Work''" "''2024-01-01 10:00:00''" fresh]
       h1 h2 e
  show ?thesis by simp
qed

text \<open>
  C5 as the specification states it fails: with the tags \<open>" A"\<close> the stored tags are
  \<open>"a"\<close>, while the tags lowercased are \<open>" a"\<close>.
\<close>

theorem add_note_tags_counterexample:
  "map tags (entries (snd (add_note ''x'' '' A'' ''2024-01-01 10:00:00'' fresh))) = [''a'']
   \<and> lower '' A'' = '' a''"
  by code_simp

text \<open>
  C8, as amended. When the note text is not empty after trimming, saving it and then
  selecting the id the database gave it displays a note whose content is the trimmed
  text and whose tags are the trimmed, lowercased tags.
\<close>

theorem add_note_get_entry:
  "strip note_text \<noteq> [] \<Longrightarrow>
   on_entry_select (next_rowid s) (snd (add_note note_text tag_entry now s)) =
     ([], Some \<lparr>entry_id = next_rowid s, etype = Note, content = strip note_text,
                tags = lower (strip tag_entry), filepath = None, timestamp = now,
                description = None\<rparr>)"
  by (simp add: add_note_def Let_def on_entry_select_def fetch_after_insert)

theorem add_note_get_entry_witness:
  "strip '' Buy milk '' \<noteq> []
   \<and> on_entry_select 1 (snd (add_note '' Buy milk '' ''Work, Home'' ''2024-01-01 10:00:00'' fresh)) =
     ([], Some \<lparr>entry_id = 1, etype = Note, content = ''Buy milk'',
                tags = ''work, home'', filepath = None, timestamp = ''2024-01-01 10:00:00'',
                description = None\<rparr>)"
proof -
  have h: "strip '' Buy milk '' \<noteq> []" by code_simp
  have v: "next_rowid fresh = 1" "strip '' Buy milk '' = ''Buy milk''"
    "lower (strip ''Work, Home'') = ''work, home''"
    by code_simp+
  from add_note_get_entry[OF h, of fresh "''Work, Home''" "''2024-01-01 10:00:00''"] h v
  show ?thesis by simp
qed

text \<open>
  C8 as the specification states it fails: the non-empty content \<open>" a"\<close> comes back
  as \<open>"a"\<close>, and the non-empty content \<open>" "\<close> is not stored at all.
\<close>

theorem add_note_get_entry_counterexample:
  "map_option content
     (snd (on_entry_select 1 (snd (add_note '' a'' [] ''2024-01-01 10:00:00'' fresh)))) = Some ''a''
   \<and> snd (on_entry_select 1 (snd (add_note '' '' [] ''2024-01-01 10:00:00'' fresh))) = None"
  by code_simp

section \<open>Deleting an entry\<close>

lemma entries_delete_entry:
  "entries (snd (delete_entry i True s)) = filter (\<lambda>r. entry_id r \<noteq> i) (entries s)"
  by (auto simp: delete_entry_def os_remove_def sql_delete_def Let_def
      split: option.splits prod.splits if_splits)

lemma fetch_after_delete: "fetch_entry i (snd (delete_entry i True s)) = None"
  by (simp add: fetch_entry_def entries_delete_entry find_None_iff)

text \<open>
  C6, as amended. Once the user has confirmed, deleting an existing entry removes its
  row and no other, so that selecting the id afterwards finds no row and displays
  nothing, without any error. For a file entry whose attachment is on disk: when the
  attachment cannot be removed, a "File Error" dialog is shown and the row is removed all
  the same; when it can, the attachment is gone from its stored path.
\<close>

theorem delete_entry_removes_row:
  assumes "fetch_entry i s = Some e"
  shows "entries (snd (delete_entry i True s)) = filter (\<lambda>r. entry_id r \<noteq> i) (entries s)
    \<and> fetch_entry i (snd (delete_entry i True s)) = None
    \<and> on_entry_select i (snd (delete_entry i True s)) = ([], None)
    \<and> (etype e = File \<and> filepath e = Some p \<and> p \<noteq> [] \<and> files s p \<noteq> None \<and> denied s p
         \<longrightarrow> fst (delete_entry i True s) = [ShowError ''File Error''])
    \<and> (etype e = File \<and> filepath e = Some p \<and> p \<noteq> [] \<and> files s p \<noteq> None \<and> \<not> denied s p
         \<longrightarrow> fst (delete_entry i True s) = [] \<and> files (snd (delete_entry i True s)) p = None)"
proof -
  have a: "on_entry_select i (snd (delete_entry i True s)) = ([], None)"
    by (simp add: on_entry_select_def fetch_after_delete)
  have b: "fst (delete_entry i True s) = [ShowError ''File Error'']"
    if "etype e = File" "filepath e = Some p" "p \<noteq> []" "files s p \<noteq> None" "denied s p"
    using that assms by (auto simp: delete_entry_def os_remove_def Let_def)
  have c: "fst (delete_entry i True s) = [] \<and> files (snd (delete_entry i True s)) p = None"
    if "etype e = File" "filepath e = Some p" "p \<noteq> []" "files s p \<noteq> None" "\<not> denied s p"
    using that assms by (auto simp: delete_entry_def os_remove_def sql_delete_def Let_def)
  from a b c show ?thesis
    by (simp add: entries_delete_entry fetch_after_delete)
qed

theorem delete_entry_removes_row_witness:
  "fetch_entry 1 (locked one_file) =
     Some \<lparr>entry_id = 1, etype = File, content = ''a.png'', tags = ''work'',
           filepath = Some ''/home/u/BrainDumpApp/files/a.png'',
           timestamp = ''2024-01-01 09:00:00'', description = Some ''my picture''\<rparr>
   \<and> denied (locked one_file) ''/home/u/BrainDumpApp/files/a.png''
   \<and> fst (delete_entry 1 True (locked one_file)) = [ShowError ''File Error'']
   \<and> entries (snd (delete_entry 1 True (locked one_file))) = []
   \<and> on_entry_select 1 (snd (delete_entry 1 True (locked one_file))) = ([], None)
   \<and> fetch_entry 1 one_file =
     Some \<lparr>entry_id = 1, etype = File, content = ''a.png'', tags = ''work'',
           filepath = Some ''/home/u/BrainDumpApp/files/a.png'',
           timestamp = ''2024-01-01 09:00:00'', description = Some ''my picture''\<rparr>
   \<and> \<not> denied one_file ''/home/u/BrainDumpApp/files/a.png''
   \<and> files (snd (delete_entry 1 True one_file)) ''/home/u/BrainDumpApp/files/a.png'' = None"
proof -
  let ?p = "''/home/u/BrainDumpApp/files/a.png''"
  let ?e = "\<lparr>entry_id = 1, etype = File, content = ''a.png'', tags = ''work'',
             filepath = Some ?p, timestamp = ''2024-01-01 09:00:00'',
             description = Some ''my picture''\<rparr>"
  have h1: "fetch_entry 1 (locked one_file) = Some ?e" by code_simp
  have h2: "fetch_entry 1 one_file = Some ?e" by code_simp
  have d1: "denied (locked one_file) ?p" by code_simp
  have d2: "\<not> denied one_file ?p" by code_simp
  have f1: "files (locked one_file) ?p \<noteq> None" by code_simp
  have f2: "files one_file ?p \<noteq> None" by code_simp
  have r: "filter (\<lambda>r. entry_id r \<noteq> 1) (entries (locked one_file)) = []" by code_simp
  from delete_entry_removes_row[OF h1, of ?p] delete_entry_removes_row[OF h2, of ?p]
       h1 h2 d1 d2 f1 f2 r
  show ?thesis by simp
qed

text \<open>
  C6 as the specification states it fails: after a note is saved and deleted, selecting
  its id finds no row and reports no error.
\<close>

theorem delete_entry_counterexample:
  "fetch_entry 1 (run [AddNote ''a'' [] ''2024-01-01 10:00:00'', Delete 1 True] fresh) = None
   \<and> \<not> reports_error
        (on_entry_select 1 (run [AddNote ''a'' [] ''2024-01-01 10:00:00'', Delete 1 True] fresh))"
  by code_simp


section \<open>Filters\<close>




















section \<open>Attachments\<close>

lemma sql_insert_fields:
  "home (sql_insert ty c tg fp d now s) = home s"
  "files (sql_insert ty c tg fp d now s) = files s"
  "denied (sql_insert ty c tg fp d now s) = denied s"
  by (simp_all add: sql_insert_def Let_def)

lemma FILES_DIR_home: "home s' = home s \<Longrightarrow> FILES_DIR s' = FILES_DIR s"
  by (simp add: FILES_DIR_def APP_DIR_def)

lemma save_pasted_image_data_ok:
  "\<not> denied s (path_join (FILES_DIR s) (''paste_'' @ stamp @ ''.png'')) \<Longrightarrow>
   snd (save_pasted_image_data im tg nt stamp now s) =
     sql_insert File (''paste_'' @ stamp @ ''.png'') (lower (strip tg))
       (Some (path_join (FILES_DIR s) (''paste_'' @ stamp @ ''.png''))) (Some (strip nt)) now
       (s\<lparr>files := (files s)(path_join (FILES_DIR s) (''paste_'' @ stamp @ ''.png'') \<mapsto> im)\<rparr>)"
  by (simp add: save_pasted_image_data_def Let_def)

text \<open>
  C10. A pasted image is written to \<open>paste_<stamp>.png\<close> in the attachment directory,
  a path fixed by the clock reading alone and never renamed. When two images are pasted
  with the same reading (and the path is writable), the first save stores the first
  image there, the second save replaces it by the second image, and the two new rows
  carry the same filepath.
\<close>

theorem paste_same_second_overwrites:
  assumes "\<not> denied s (path_join (FILES_DIR s) (''paste_'' @ stamp @ ''.png''))"
  shows "let p = path_join (FILES_DIR s) (''paste_'' @ stamp @ ''.png'');
             s1 = snd (save_pasted_image_data im1 tg1 nt1 stamp now1 s);
             s2 = snd (save_pasted_image_data im2 tg2 nt2 stamp now2 s1)
         in files s1 p = Some im1 \<and> files s2 p = Some im2
            \<and> map filepath (drop (length (entries s)) (entries s2)) = [Some p, Some p]"
proof -
  define fn where "fn = ''paste_'' @ stamp @ ''.png''"
  define p where "p = path_join (FILES_DIR s) fn"
  define s1 where "s1 = snd (save_pasted_image_data im1 tg1 nt1 stamp now1 s)"
  define s2 where "s2 = snd (save_pasted_image_data im2 tg2 nt2 stamp now2 s1)"
  have e1: "s1 = sql_insert File fn (lower (strip tg1)) (Some p) (Some (strip nt1)) now1
                   (s\<lparr>files := (files s)(p \<mapsto> im1)\<rparr>)"
    unfolding s1_def p_def fn_def by (rule save_pasted_image_data_ok[OF assms])
  have h1: "home s1 = home s" and d1: "denied s1 = denied s"
    and f1: "files s1 = (files s)(p \<mapsto> im1)"
    by (simp_all add: e1 sql_insert_fields)
  have a2: "\<not> denied s1 (path_join (FILES_DIR s1) (''paste_'' @ stamp @ ''.png''))"
    unfolding d1 FILES_DIR_home[OF h1] by (rule assms)
  have e2: "s2 = sql_insert File fn (lower (strip tg2)) (Some p) (Some (strip nt2)) now2
                   (s1\<lparr>files := (files s1)(p \<mapsto> im2)\<rparr>)"
    using save_pasted_image_data_ok[OF a2, of im2 tg2 nt2 now2]
    unfolding s2_def p_def fn_def FILES_DIR_home[OF h1] .
  have f2: "files s2 = (files s1)(p \<mapsto> im2)"
    by (simp add: e2 sql_insert_fields)
  have n1: "entries s1 = entries s @ [\<lparr>entry_id = next_rowid s, etype = File,
              content = fn, tags = lower (strip tg1),
              filepath = Some p, timestamp = now1, description = Some (strip nt1)\<rparr>]"
    by (simp add: e1 sql_insert_def Let_def next_rowid_def)
  have n2: "map filepath (drop (length (entries s)) (entries s2)) = [Some p, Some p]"
    by (simp add: e2 sql_insert_def Let_def n1)
  show ?thesis
    unfolding Let_def fn_def[symmetric] p_def[symmetric] s1_def[symmetric] s2_def[symmetric]
    using f1 f2 n2 by simp
qed

theorem paste_same_second_overwrites_witness:
  "\<not> denied fresh (path_join (FILES_DIR fresh) (''paste_'' @ ''20240101100000'' @ ''.png''))
   \<and> files (snd (save_pasted_image_data ''first'' [] [] ''20240101100000'' ''2024-01-01 09:00:00''
              fresh))
        ''/home/u/BrainDumpApp/files/paste_20240101100000.png'' = Some ''first''
   \<and> files (snd (save_pasted_image_data ''second'' [] [] ''20240101100000'' ''2024-01-01 09:00:00''
              (snd (save_pasted_image_data ''first'' [] [] ''20240101100000''
                      ''2024-01-01 09:00:00'' fresh))))
        ''/home/u/BrainDumpApp/files/paste_20240101100000.png'' = Some ''second''
   \<and> map filepath (entries
        (snd (save_pasted_image_data ''second'' [] [] ''20240101100000'' ''2024-01-01 09:00:00''
              (snd (save_pasted_image_data ''first'' [] [] ''20240101100000''
                      ''2024-01-01 09:00:00'' fresh)))))
       = [Some ''/home/u/BrainDumpApp/files/paste_20240101100000.png'',
          Some ''/home/u/BrainDumpApp/files/paste_20240101100000.png'']"
proof -
  have h: "\<not> denied fresh
             (path_join (FILES_DIR fresh) (''paste_'' @ ''20240101100000'' @ ''.png''))"
    by code_simp
  have p: "path_join (FILES_DIR fresh) (''paste_'' @ ''20240101100000'' @ ''.png'')
           = ''/home/u/BrainDumpApp/files/paste_20240101100000.png''"
    by code_simp
  have n: "length (entries fresh) = 0" by code_simp
  from paste_same_second_overwrites[OF h, of "''first''" "[]" "[]" "''2024-01-01 09:00:00''"
         "''second''" "[]" "[]" "''2024-01-01 09:00:00''"] h
  show ?thesis unfolding Let_def p n by simp
qed

text \<open>
  C2, at a failing input. The attachment directory holds \<open>a.png\<close> and
  \<open>a_20240101100000.png\<close>; a third picture named \<open>a.png\<close> is added when the clock
  reads 20240101100000. The renamed target is not checked again: the third row is given
  the filepath of the second, and the second attachment's bytes are overwritten.
\<close>

theorem copy_file_to_storage_collision:
  "map filepath (entries two_attachments)
     = [Some ''/home/u/BrainDumpApp/files/a.png'',
        Some ''/home/u/BrainDumpApp/files/a_20240101100000.png'']
   \<and> files two_attachments ''/home/u/BrainDumpApp/files/a_20240101100000.png'' = Some ''YY''
   \<and> fst (add_file ''/home/u/z/a.png'' [] [] ''20240101100000'' ''2024-01-01 09:00:00''
             two_attachments) = []
   \<and> map filepath (entries (snd
        (add_file ''/home/u/z/a.png'' [] [] ''20240101100000'' ''2024-01-01 09:00:00''
           two_attachments)))
     = [Some ''/home/u/BrainDumpApp/files/a.png'',
        Some ''/home/u/BrainDumpApp/files/a_20240101100000.png'',
        Some ''/home/u/BrainDumpApp/files/a_20240101100000.png'']
   \<and> files (snd
        (add_file ''/home/u/z/a.png'' [] [] ''20240101100000'' ''2024-01-01 09:00:00''
           two_attachments))
        ''/home/u/BrainDumpApp/files/a_20240101100000.png'' = Some ''ZZ''"
  by code_simp


section \<open>The filepath invariant\<close>

lemma FILES_DIR_shape: "FILES_DIR s \<noteq> [] \<and> last (FILES_DIR s) \<noteq> CHR ''/''"
  by (simp add: FILES_DIR_def path_join_def)

lemma in_files_dir_join:
  assumes "name = [] \<or> hd name \<noteq> CHR ''/''"
  shows "in_files_dir s (path_join (FILES_DIR s) name)"
proof -
  have "path_join (FILES_DIR s) name = (FILES_DIR s @ ''/'') @ name"
    using assms FILES_DIR_shape[of s] by (auto simp: path_join_def)
  then show ?thesis by (simp add: in_files_dir_def)
qed

lemma basename_no_slash: "CHR ''/'' \<notin> set (basename p)"
  by (auto simp: basename_def dest: set_takeWhileD)

lemma splitext_base_subset: "set (fst (splitext p)) \<subseteq> set p"
proof -
  have a: "set (tl xs) \<subseteq> set xs" for xs :: string
    by (cases xs) auto
  have b: "set (dropWhile (\<lambda>c. c \<noteq> CHR ''.'') (rev p)) \<subseteq> set p"
    by (auto dest: set_dropWhileD)
  have "set (rev (tl (dropWhile (\<lambda>c. c \<noteq> CHR ''.'') (rev p)))) \<subseteq> set p"
    using a[of "dropWhile (\<lambda>c. c \<noteq> CHR ''.'') (rev p)"] b by auto
  then show ?thesis
    unfolding splitext_def Let_def by (simp split: if_splits)
qed

lemma renamed_no_leading_slash:
  assumes "CHR ''/'' \<notin> set filename" and "splitext filename = (base, ext)"
  shows "hd (base @ ''_'' @ stamp @ ext) \<noteq> CHR ''/''"
proof (cases base)
  case Nil
  then show ?thesis by simp
next
  case (Cons b bs)
  then have "b \<in> set filename"
    using splitext_base_subset[of filename] assms(2) by auto
  with assms(1) Cons show ?thesis by auto
qed

lemma copy2_fields:
  "copy2 src dst s = Some s' \<Longrightarrow> home s' = home s \<and> entries s' = entries s"
  by (auto simp: copy2_def split: option.splits if_splits)

lemma copy_file_to_storage_inside:
  assumes "copy_file_to_storage path (basename path) stamp s = Inr (p, s')"
  shows "in_files_dir s p \<and> home s' = home s \<and> entries s' = entries s"
proof -
  obtain base ext where be: "splitext (basename path) = (base, ext)"
    by (cases "splitext (basename path)")
  define q where "q = (if files s (path_join (FILES_DIR s) (basename path)) \<noteq> None
                        then path_join (FILES_DIR s) (base @ ''_'' @ stamp @ ext)
                        else path_join (FILES_DIR s) (basename path))"
  have c: "copy2 path q s = Some s'" and pq: "p = q"
    using assms by (auto simp: copy_file_to_storage_def Let_def be q_def split: option.splits)
  have n: "basename path = [] \<or> hd (basename path) \<noteq> CHR ''/''"
    using basename_no_slash[of path] by (cases "basename path") auto
  have "in_files_dir s q"
    unfolding q_def
    using in_files_dir_join[OF n]
      in_files_dir_join[OF disjI2[OF renamed_no_leading_slash[OF basename_no_slash be]]]
    by simp
  with pq copy2_fields[OF c] show ?thesis by simp
qed

lemma in_files_dir_home: "home s' = home s \<Longrightarrow> in_files_dir s' = in_files_dir s"
  using FILES_DIR_home[of s' s] by (simp add: in_files_dir_def fun_eq_iff)

lemma filepath_ok_home: "home s' = home s \<Longrightarrow> filepath_ok s' = filepath_ok s"
  using in_files_dir_home[of s' s]
  by (auto simp: filepath_ok_def fun_eq_iff split: etype.splits option.splits)

lemma filepaths_ok_cong:
  "home s' = home s \<Longrightarrow> entries s' = entries s \<Longrightarrow> filepaths_ok s' = filepaths_ok s"
  using filepath_ok_home[of s' s] by (simp add: filepaths_ok_def)

lemma filepaths_ok_insert:
  assumes "filepaths_ok s"
    and "filepath_ok s \<lparr>entry_id = next_rowid s, etype = ty, content = c, tags = tg,
                         filepath = fp, timestamp = now, description = d\<rparr>"
  shows "filepaths_ok (sql_insert ty c tg fp d now s)"
proof -
  have "filepath_ok (sql_insert ty c tg fp d now s) = filepath_ok s"
    by (rule filepath_ok_home) (simp add: sql_insert_fields)
  with assms show ?thesis
    by (simp add: filepaths_ok_def entries_sql_insert)
qed

lemma filepaths_ok_add_note:
  "filepaths_ok s \<Longrightarrow> filepaths_ok (snd (add_note note_text tag_entry now s))"
  by (auto simp: add_note_def Let_def filepath_ok_def intro!: filepaths_ok_insert)

lemma filepaths_ok_save_file_reference:
  assumes "filepaths_ok s"
  shows "filepaths_ok (snd (save_file_reference path tag_entry note_text stamp now s))"
proof (cases "copy_file_to_storage path (basename path) stamp s")
  case (Inl d)
  with assms show ?thesis by (simp add: save_file_reference_def Let_def)
next
  case (Inr r)
  obtain p s' where r: "r = (p, s')" by (cases r)
  from copy_file_to_storage_inside[OF Inr[unfolded r]]
  have i: "in_files_dir s p" and h: "home s' = home s" and e: "entries s' = entries s"
    by simp_all
  have "filepaths_ok s'" using assms filepaths_ok_cong[OF h e] by simp
  moreover have "in_files_dir s' p"
    using i by (simp add: in_files_dir_def FILES_DIR_home[OF h])
  ultimately show ?thesis
    using Inr r
    by (auto simp: save_file_reference_def Let_def filepath_ok_def intro!: filepaths_ok_insert)
qed

lemma filepaths_ok_save_pasted:
  assumes "filepaths_ok s"
  shows "filepaths_ok (snd (save_pasted_image_data im tag_entry note_text stamp now s))"
proof -
  let ?p = "path_join (FILES_DIR s) (''paste_'' @ stamp @ ''.png'')"
  let ?s = "s\<lparr>files := (files s)(?p \<mapsto> im)\<rparr>"
  have a: "filepaths_ok ?s" using assms filepaths_ok_cong[of ?s s] by simp
  have "in_files_dir s ?p" by (rule in_files_dir_join) simp
  then have b: "in_files_dir ?s (path_join (FILES_DIR ?s) (''paste_'' @ stamp @ ''.png''))"
    by (simp add: in_files_dir_def FILES_DIR_def APP_DIR_def)
  show ?thesis
  proof (cases "denied s ?p")
    case True
    with assms show ?thesis by (simp add: save_pasted_image_data_def Let_def)
  next
    case False
    have "filepaths_ok (sql_insert File (''paste_'' @ stamp @ ''.png'') (lower (strip tag_entry))
            (Some ?p) (Some (strip note_text)) now ?s)"
      using a b by (intro filepaths_ok_insert) (simp_all add: filepath_ok_def FILES_DIR_def APP_DIR_def)
    with False show ?thesis by (simp add: save_pasted_image_data_def Let_def)
  qed
qed

lemma filepaths_ok_delete:
  assumes "filepaths_ok s"
  shows "filepaths_ok (snd (delete_entry i confirm s))"
proof (cases confirm)
  case False
  with assms show ?thesis by (simp add: delete_entry_def)
next
  case True
  have h: "home (snd (delete_entry i True s)) = home s"
    by (auto simp: delete_entry_def os_remove_def sql_delete_def Let_def
        split: option.splits prod.splits if_splits)
  have "list_all (filepath_ok s) (filter (\<lambda>r. entry_id r \<noteq> i) (entries s))"
    using assms by (simp add: filepaths_ok_def list_all_iff)
  then show ?thesis
    using True by (simp add: filepaths_ok_def entries_delete_entry filepath_ok_home[OF h])
qed

lemma filepaths_ok_step: "filepaths_ok s \<Longrightarrow> filepaths_ok (snd (step a s))"
proof (cases a)
  case (AddNote x1 x2 x3)
  assume "filepaths_ok s"
  then show ?thesis using AddNote by (simp add: filepaths_ok_add_note)
next
  case (AddFile x1 x2 x3 x4 x5)
  assume "filepaths_ok s"
  then show ?thesis using AddFile
    by (simp add: add_file_def filepaths_ok_save_file_reference)
next
  case (Paste clip x2 x3 x4 x5)
  assume "filepaths_ok s"
  then show ?thesis using Paste
    by (auto simp: paste_from_clipboard_def Let_def filepaths_ok_save_file_reference
        filepaths_ok_save_pasted split: clipboard.splits)
next
  case (Delete x1 x2)
  assume "filepaths_ok s"
  then show ?thesis using Delete by (simp add: filepaths_ok_delete)
qed

lemma filepaths_ok_run: "filepaths_ok s \<Longrightarrow> filepaths_ok (run acts s)"
  by (induction acts arbitrary: s) (auto simp: filepaths_ok_step)

text \<open>
  C9. Let every note row have a null filepath and every file row a filepath that begins
  with the attachment directory and a slash. Then so it is after any one operation
  (saving a note, adding a file, pasting, deleting), and after any sequence of them; it
  holds on the empty table of a first start.
\<close>

theorem filepath_invariant:
  "filepaths_ok fresh
   \<and> (filepaths_ok s \<longrightarrow> filepaths_ok (snd (step a s)) \<and> filepaths_ok (run acts s))"
  using filepaths_ok_step[of s a] filepaths_ok_run[of s acts]
  by (auto simp: filepaths_ok_def fresh_def)

theorem filepath_invariant_witness:
  "filepaths_ok two_attachments
   \<and> filepaths_ok (snd (step (Paste (ClipText ''/home/u/z/a.png'') ''Pic'' [] ''20240101100000''
                              ''2024-01-01 09:00:00'') two_attachments))
   \<and> map filepath (entries (snd (step (Paste (ClipText ''/home/u/z/a.png'') ''Pic'' []
                              ''20240101100000'' ''2024-01-01 09:00:00'') two_attachments)))
       = [Some ''/home/u/BrainDumpApp/files/a.png'',
          Some ''/home/u/BrainDumpApp/files/a_20240101100000.png'',
          Some ''/home/u/BrainDumpApp/files/a_20240101100000.png'']"
proof -
  have h: "filepaths_ok two_attachments" by code_simp
  have m: "map filepath (entries (snd (step (Paste (ClipText ''/home/u/z/a.png'') ''Pic'' []
                              ''20240101100000'' ''2024-01-01 09:00:00'') two_attachments)))
       = [Some ''/home/u/BrainDumpApp/files/a.png'',
          Some ''/home/u/BrainDumpApp/files/a_20240101100000.png'',
          Some ''/home/u/BrainDumpApp/files/a_20240101100000.png'']"
    by code_simp
  from filepath_invariant[of two_attachments
      "Paste (ClipText ''/home/u/z/a.png'') ''Pic'' [] ''20240101100000'' ''2024-01-01 09:00:00''"
      "[]"] h m
  show ?thesis by simp
qed

end
